theory Spec2Isabelle
  imports Complex_Main "HOL-Library.Char_ord" "HOL-Library.List_Lexorder"
begin

section \<open>Values, exceptions and documents\<close>

text \<open>
  Byte strings are lists of numbers; text is \<^typ>\<open>string\<close>.  Every exception a modelled
  function can raise is a value of \<open>exn\<close>, and a call that may raise returns \<open>exn + 'a\<close>
  with \<open>Inl\<close> for the raised exception.  A botocore \<open>ClientError\<close> carries the string found
  at \<open>e.response["Error"]["Code"]\<close>; an exception with no constructor of its own (a
  connection failure, a parameter validation failure, an error of the image library)
  is an \<open>OtherException\<close>.
\<close>

type_synonym bytes = "nat list"

datatype exn =
    ClientError string
  | KeyError string
  | TypeError
  | AttributeError
  | FileNotFoundError string
  | OtherException string

text \<open>What Streamlit's \<open>file_uploader\<close> hands over, and a decoded PIL image.\<close>

record uploaded_file =
  file_name :: string
  file_size :: nat
  file_data :: bytes

record image =
  img_width :: int
  img_height :: int
  img_pixels :: bytes

text \<open>
  The Python values that occur in the session state and in the two JSON documents.
  A float literal of the source is the rational number it denotes.
\<close>

datatype pyval =
    PNone
  | PBool bool
  | PInt int
  | PFloat rat
  | PStr string
  | PFile uploaded_file

type_synonym dict = "string \<rightharpoonup> pyval"

text \<open>\<open>d[key]\<close>: a missing key raises \<open>KeyError\<close>.\<close>

definition getitem :: "dict \<Rightarrow> string \<Rightarrow> exn + pyval" where
  "getitem d key = (case d key of None \<Rightarrow> Inl (KeyError key) | Some v \<Rightarrow> Inr v)"

text \<open>The lookups \<open>d[k]\<close> for a list of keys, left to right, as pairs \<open>(k, d[k])\<close>.\<close>

fun getitems :: "dict \<Rightarrow> string list \<Rightarrow> exn + (string \<times> pyval) list" where
  "getitems d [] = Inr []"
| "getitems d (key # keys) =
     (case getitem d key of
        Inl e \<Rightarrow> Inl e
      | Inr v \<Rightarrow>
          (case getitems d keys of
             Inl e \<Rightarrow> Inl e
           | Inr kvs \<Rightarrow> Inr ((key, v) # kvs)))"

text \<open>
  The result document of the inference job: the base64 strings under \<open>"frames"\<close> and the
  dictionary under \<open>"config"\<close>.
\<close>

record response_payload =
  frames :: "string list"
  config :: dict

text \<open>
  Local files are kept as an association list from path to content, so that a directory
  can be listed.  A JSON file holds the document that was dumped into it; \<open>Truncated\<close> is
  a JSON file whose writing was interrupted by an exception.
\<close>

datatype file_content =
    JsonRequest dict
  | JsonResponse response_payload
  | Binary bytes
  | Truncated

type_synonym file_system = "(string \<times> file_content) list"

definition write_file :: "string \<Rightarrow> file_content \<Rightarrow> file_system \<Rightarrow> file_system" where
  "write_file path c fs = (path, c) # filter (\<lambda>(p, _). p \<noteq> path) fs"

definition read_file :: "file_system \<Rightarrow> string \<Rightarrow> file_content option" where
  "read_file fs path = map_of fs path"

subsection \<open>Constants of app.py\<close>


definition S3_BUCKET :: string where
  "S3_BUCKET = ''sagemaker-us-east-1-CHANGE-ME''"

definition ENDPOINT_NAME :: string where
  "ENDPOINT_NAME = ''huggingface-pytorch-inference-CHANGE-ME''"

definition REQUEST_PAYLOAD :: string where
  "REQUEST_PAYLOAD = ''tmp/request_payloads/payload.json''"

definition RESPONSE_PAYLOAD :: string where
  "RESPONSE_PAYLOAD = ''tmp/response_output.json''"

text \<open>The object key written in \<open>upload_file\<close> and again in \<open>invoke_model\<close>.\<close>

definition INPUT_KEY :: string where
  "INPUT_KEY = ''async_inference/input/payload.json''"


section \<open>The application state and its collaborators\<close>

datatype ui_message =
    StError string
  | StWarning string
  | StSuccess string
  | StWrite string
  | StImage image nat
  | StVideo file_content

record invoke_response =
  OutputLocation :: string
  FailureLocation :: string

record ffmpeg_job =
  inputs :: "file_content list"
  framerate :: pyval
  output_path :: string
  output_options :: "(string \<times> string) list"

datatype external_call =
    S3Upload string string file_content
  | InvokeEndpointAsync pyval string nat
  | FfmpegRun ffmpeg_job

text \<open>
  Everything a script run reads and changes: Streamlit's session state, what has been
  shown to the user, the calls made to the object store, the inference endpoint and the
  encoder (in order), the objects staged in the store (by bucket and key), the local files,
  the local directories that exist, and the seconds spent sleeping.  Line 23 of app.py
  creates \<open>tmp/request_payloads\<close> (and with it \<open>tmp\<close>) when the module is loaded, so the two
  JSON files can always be written; nothing creates \<open>frames_out\<close>.
\<close>

record app =
  session_state :: dict
  shown :: "ui_message list"
  calls :: "external_call list"
  s3_objects :: "(string \<times> string) \<rightharpoonup> file_content"
  local_files :: file_system
  directories :: "string list"
  slept :: nat

text \<open>
  What the storage client answers during one pass through the body of the polling loop:
  \<^item> \<open>head_object\<close> on the success location,
  \<^item> \<open>download_file\<close> of the success location (asked only after \<open>head_object\<close> returned),
  \<^item> \<open>download_fileobj\<close> of the failure location (asked only after a not-found error).
\<close>

record s3_answers =
  head_object :: "exn + unit"
  download_file :: "exn + response_payload"
  download_fileobj :: "exn + bytes"

text \<open>
  The libraries and services the web application calls, as parameters: PIL
  (\<open>Image.open\<close>, \<open>Image.save\<close> as JPEG), \<open>base64\<close>, \<open>os.path.splitext(...)[0]\<close>, \<open>str()\<close> of a
  value that is not a string, the Streamlit widgets (label and current value to returned
  value), the object store (the exception \<open>upload_file\<close> raises, if any; the answers to the
  poller, by job and pass number), the inference endpoint and the encoder.
\<close>

record client_env =
  image_open :: "uploaded_file \<Rightarrow> exn + image"
  image_save_jpeg :: "image \<Rightarrow> exn + bytes"
  b64encode :: "bytes \<Rightarrow> string"
  b64decode :: "string \<Rightarrow> exn + bytes"
  splitext_root :: "string \<Rightarrow> string"
  repr :: "pyval \<Rightarrow> string"
  text_input :: "string \<Rightarrow> pyval \<Rightarrow> pyval"
  number_input :: "string \<Rightarrow> pyval \<Rightarrow> pyval"
  s3_upload_error :: "string \<Rightarrow> string \<Rightarrow> exn option"
  invoke_endpoint_async :: "pyval \<Rightarrow> string \<Rightarrow> nat \<Rightarrow> exn + invoke_response"
  s3_poll :: "invoke_response \<Rightarrow> nat \<Rightarrow> s3_answers"
  ffmpeg_run :: "ffmpeg_job \<Rightarrow> exn + bytes"

text \<open>Interpolation of a value into an f-string: a string is itself.\<close>

definition py_str :: "client_env \<Rightarrow> pyval \<Rightarrow> string" where
  "py_str env v = (case v of PStr s \<Rightarrow> s | _ \<Rightarrow> repr env v)"

section \<open>\<open>reset_session_states\<close> (app.py, lines 53--76)\<close>

definition session_state_defaults :: "(string \<times> pyval) list" where
  "session_state_defaults =
     [(''aws_region'', PStr ''us-east-1''),
      (''s3_bucket'', PStr S3_BUCKET),
      (''sagemaker_endpoint_name'', PStr ENDPOINT_NAME),
      (''play_video_disabled'', PBool True),
      (''invocation_time'', PInt 0),
      (''movie_title'', PNone),
      (''width'', PInt 1024),
      (''height'', PInt 576),
      (''num_frames'', PInt 25),
      (''num_inference_steps'', PInt 25),
      (''min_guidance_scale'', PFloat 1),
      (''max_guidance_scale'', PFloat 3),
      (''fps'', PInt 6),
      (''motion_bucket_id'', PInt 127),
      (''noise_aug_strength'', PFloat (2 / 100)),
      (''decode_chunk_size'', PInt 8),
      (''seed'', PInt 42),
      (''uploaded_image'', PNone)]"

text \<open>\<open>for key, value in ...items(): if key not in st.session_state: ...\<close>\<close>

fun set_missing :: "(string \<times> pyval) list \<Rightarrow> dict \<Rightarrow> dict" where
  "set_missing [] st = st"
| "set_missing ((key, v) # rest) st =
     set_missing rest (case st key of None \<Rightarrow> st(key \<mapsto> v) | Some _ \<Rightarrow> st)"

definition reset_session_states :: "dict \<Rightarrow> dict" where
  "reset_session_states st = set_missing session_state_defaults st"

section \<open>\<open>handle_file_upload\<close> (app.py, lines 79--98)\<close>



section \<open>\<open>display_input_fields\<close> (app.py, lines 101--144)\<close>






section \<open>\<open>upload_file\<close>, \<open>encode_image\<close> and \<open>invoke_model\<close> (app.py, lines 161--207)\<close>

text \<open>
  \<open>upload_file\<close> reads the bucket with \<open>.get\<close>, so a missing key gives \<open>None\<close>; the client
  library rejects a bucket that is not a string before it sends anything.
\<close>

definition upload_file :: "client_env \<Rightarrow> string \<Rightarrow> app \<Rightarrow> (exn + unit) \<times> app" where
  "upload_file env file_path a =
     (case session_state a ''s3_bucket'' of
        Some (PStr bucket) \<Rightarrow>
          (case read_file (local_files a) file_path of
             None \<Rightarrow> (Inl (FileNotFoundError file_path), a)
           | Some c \<Rightarrow>
               (let a1 = a\<lparr>calls :=
                            calls a @ [S3Upload bucket ''async_inference/input/payload.json'' c]\<rparr>
                in case s3_upload_error env bucket ''async_inference/input/payload.json'' of
                     Some e \<Rightarrow> (Inl e, a1)
                   | None \<Rightarrow>
                       (Inr (),
                        a1\<lparr>s3_objects :=
                             (s3_objects a1)
                               ((bucket, ''async_inference/input/payload.json'') \<mapsto> c)\<rparr>)))
      | _ \<Rightarrow> (Inl (OtherException ''ParamValidationError''), a))"

definition encode_image :: "client_env \<Rightarrow> image \<Rightarrow> exn + string" where
  "encode_image env img =
     (case image_save_jpeg env img of
        Inl e \<Rightarrow> Inl e
      | Inr buffered \<Rightarrow> Inr (''data:text/plain;base64,'' @ b64encode env buffered))"

text \<open>\<open>Image.open\<close> of whatever the session holds under \<open>"uploaded_image"\<close>.\<close>

definition open_upload :: "client_env \<Rightarrow> pyval \<Rightarrow> exn + image" where
  "open_upload env v = (case v of PFile f \<Rightarrow> image_open env f | _ \<Rightarrow> Inl AttributeError)"

text \<open>The keys of the request after \<open>"movie_title"\<close> and \<open>"image"\<close>, in the order of the source.\<close>

definition payload_keys :: "string list" where
  "payload_keys =
     [''width'', ''height'', ''num_frames'', ''num_inference_steps'', ''min_guidance_scale'',
      ''max_guidance_scale'', ''fps'', ''motion_bucket_id'', ''noise_aug_strength'',
      ''decode_chunk_size'', ''seed'']"

text \<open>\<open>json.dump\<close> raises \<open>TypeError\<close> on a value that JSON cannot hold.\<close>

fun serialisable :: "pyval \<Rightarrow> bool" where
  "serialisable (PFile _) = False"
| "serialisable _ = True"

definition json_dump :: "(string \<times> pyval) list \<Rightarrow> exn + dict" where
  "json_dump kvs = (if list_all (\<lambda>(k, v). serialisable v) kvs then Inr (map_of kvs) else Inl TypeError)"

text \<open>Lines 178--193: the dictionary \<open>data\<close>, its entries evaluated in order.\<close>

definition request_data :: "client_env \<Rightarrow> dict \<Rightarrow> exn + (string \<times> pyval) list" where
  "request_data env st =
     (case getitem st ''uploaded_image'' of
        Inl e \<Rightarrow> Inl e
      | Inr up \<Rightarrow>
     (case open_upload env up of
        Inl e \<Rightarrow> Inl e
      | Inr img \<Rightarrow>
     (case getitem st ''movie_title'' of
        Inl e \<Rightarrow> Inl e
      | Inr title \<Rightarrow>
     (case encode_image env img of
        Inl e \<Rightarrow> Inl e
      | Inr enc \<Rightarrow>
     (case getitems st payload_keys of
        Inl e \<Rightarrow> Inl e
      | Inr kvs \<Rightarrow> Inr ((''movie_title'', title) # (''image'', PStr enc) # kvs))))))"

definition invoke_model :: "client_env \<Rightarrow> app \<Rightarrow> (exn + invoke_response) \<times> app" where
  "invoke_model env a =
     (case request_data env (session_state a) of
        Inl e \<Rightarrow> (Inl e, a)
      | Inr data \<Rightarrow>
     (case json_dump data of
        Inl e \<Rightarrow> (Inl e, a\<lparr>local_files := write_file REQUEST_PAYLOAD Truncated (local_files a)\<rparr>)
      | Inr doc \<Rightarrow>
     (case upload_file env REQUEST_PAYLOAD
             (a\<lparr>local_files := write_file REQUEST_PAYLOAD (JsonRequest doc) (local_files a)\<rparr>) of
        (Inl e, a1) \<Rightarrow> (Inl e, a1)
      | (Inr _, a1) \<Rightarrow>
     (case getitem (session_state a1) ''aws_region'' of
        Inl e \<Rightarrow> (Inl e, a1)
      | Inr region \<Rightarrow>
     (case getitem (session_state a1) ''sagemaker_endpoint_name'' of
        Inl e \<Rightarrow> (Inl e, a1)
      | Inr endpoint \<Rightarrow>
     (case getitem (session_state a1) ''s3_bucket'' of
        Inl e \<Rightarrow> (Inl e, a1)
      | Inr bucket \<Rightarrow>
          (let location = ''s3://'' @ py_str env bucket @ ''/async_inference/input/payload.json'';
               a2 = a1\<lparr>calls := calls a1 @ [InvokeEndpointAsync endpoint location 3600]\<rparr>
           in (invoke_endpoint_async env endpoint location 3600, a2))))))))"

section \<open>The poller: \<open>get_model_response\<close> (app.py, lines 210--241)\<close>

text \<open>
  The state the loop changes: the number of passes started so far, the seconds spent in
  \<open>time.sleep\<close>, and the local files (\<open>download_file\<close> writes \<open>RESPONSE_PAYLOAD\<close>).
\<close>

record poller_state =
  checks :: nat
  poll_slept :: nat
  poll_files :: file_system

datatype poll_result = Returned bool | Raised exn

datatype pass_result = Done poll_result | Continue

text \<open>
  \<open>e.response["Error"]["Code"] in ("NoSuchKey", "404")\<close>, for an exception that the clause
  \<open>except ClientError as e\<close> catches; no other exception is caught there.
\<close>

fun not_found :: "exn \<Rightarrow> bool" where
  "not_found (ClientError code) = (code = ''NoSuchKey'' \<or> code = ''404'')"
| "not_found _ = False"

text \<open>The two calls inside \<open>try\<close>: \<open>head_object\<close>, then \<open>download_file\<close>.\<close>

definition success_check :: "s3_answers \<Rightarrow> exn + response_payload" where
  "success_check ans =
     (case head_object ans of
        Inl e \<Rightarrow> Inl e
      | Inr _ \<Rightarrow> download_file ans)"

text \<open>
  One pass through the loop body.  \<open>Done\<close> is a \<open>return\<close> or an exception that leaves the
  function, \<open>Continue\<close> is \<open>time.sleep(15); continue\<close>.  The \<open>print\<close> calls are left out.
\<close>

definition poll_once :: "s3_answers \<Rightarrow> pass_result" where
  "poll_once ans =
     (case success_check ans of
        Inr doc \<Rightarrow> Done (Returned True)
      | Inl e \<Rightarrow>
          if not_found e then
            (case download_fileobj ans of
               Inr reason \<Rightarrow> Done (Returned False)
             | Inl e2 \<Rightarrow> Continue)
          else Done (Raised e))"

definition after_check :: "s3_answers \<Rightarrow> poller_state \<Rightarrow> poller_state" where
  "after_check ans s =
     (case success_check ans of
        Inr doc \<Rightarrow>
          s\<lparr>checks := Suc (checks s),
            poll_files := write_file RESPONSE_PAYLOAD (JsonResponse doc) (poll_files s)\<rparr>
      | Inl e \<Rightarrow> s\<lparr>checks := Suc (checks s)\<rparr>)"

text \<open>
  The loop \<open>while True\<close>.  It has no exit condition of its own, so the model is a partial
  function: \<open>None\<close> means that the call never returns.
\<close>

partial_function (option) poll_loop ::
  "(nat \<Rightarrow> s3_answers) \<Rightarrow> poller_state \<Rightarrow> (poll_result \<times> poller_state) option" where
  "poll_loop answers s =
     (case poll_once (answers (checks s)) of
        Done r \<Rightarrow> Some (r, after_check (answers (checks s)) s)
      | Continue \<Rightarrow>
          poll_loop answers
            ((after_check (answers (checks s)) s)\<lparr>poll_slept := poll_slept s + 15\<rparr>))"

definition get_model_response ::
  "(nat \<Rightarrow> s3_answers) \<Rightarrow> file_system \<Rightarrow> (poll_result \<times> poller_state) option" where
  "get_model_response answers fs =
     poll_loop answers \<lparr>checks = 0, poll_slept = 0, poll_files = fs\<rparr>"

section \<open>\<open>process_video_frames\<close> (app.py, lines 244--250)\<close>

definition digit_char :: "nat \<Rightarrow> char" where
  "digit_char d = char_of (48 + d)"

text \<open>The decimal digits of a natural number, and the format specification \<open>02\<close>.\<close>

fun decimal :: "nat \<Rightarrow> string" where
  "decimal n = (if n < 10 then [digit_char n] else decimal (n div 10) @ [digit_char (n mod 10)])"

definition format_02 :: "nat \<Rightarrow> string" where
  "format_02 n = replicate (2 - length (decimal n)) (CHR ''0'') @ decimal n"

definition frame_name :: "nat \<Rightarrow> string" where
  "frame_name idx = ''frames_out/frame_'' @ format_02 (idx + 1) @ ''.jpg''"

text \<open>
  The loop over \<open>enumerate(data["frames"])\<close>, given the directories that exist.
  \<open>open(frame_name, "wb")\<close> raises \<open>FileNotFoundError\<close> when the directory \<open>frames_out\<close>
  is missing; otherwise it creates or empties the file before \<open>base64.b64decode\<close> is
  evaluated.
\<close>

fun write_frames ::
  "client_env \<Rightarrow> string list \<Rightarrow> nat \<Rightarrow> string list \<Rightarrow> file_system \<Rightarrow>
     (exn + unit) \<times> file_system" where
  "write_frames env dirs idx [] fs = (Inr (), fs)"
| "write_frames env dirs idx (video_frame # rest) fs =
     (if ''frames_out'' \<notin> set dirs then (Inl (FileNotFoundError (frame_name idx)), fs)
      else
        (case b64decode env video_frame of
           Inl e \<Rightarrow> (Inl e, write_file (frame_name idx) (Binary []) fs)
         | Inr decoded \<Rightarrow>
             write_frames env dirs (idx + 1) rest
               (write_file (frame_name idx) (Binary decoded) fs)))"

definition process_video_frames :: "client_env \<Rightarrow> app \<Rightarrow> (exn + unit) \<times> app" where
  "process_video_frames env a =
     (case read_file (local_files a) RESPONSE_PAYLOAD of
        None \<Rightarrow> (Inl (FileNotFoundError RESPONSE_PAYLOAD), a)
      | Some (JsonResponse data) \<Rightarrow>
          (case write_frames env (directories a) 0 (frames data) (local_files a) of
             (r, fs) \<Rightarrow> (r, a\<lparr>local_files := fs\<rparr>))
      | Some (JsonRequest d) \<Rightarrow> (Inl (KeyError ''frames''), a)
      | Some _ \<Rightarrow> (Inl (OtherException ''JSONDecodeError''), a))"

section \<open>\<open>convert_frames_to_video\<close> (app.py, lines 253--263)\<close>

text \<open>
  The encoder's input \<open>"frames_out/*.jpg"\<close> with \<open>pattern_type="glob"\<close>: the files of the
  directory \<open>frames_out\<close> whose name ends in \<open>.jpg\<close> and does not start with a dot, in the
  order of their names as byte strings.
\<close>

definition matches_glob :: "string \<Rightarrow> bool" where
  "matches_glob path =
     (take 11 path = ''frames_out/'' \<and>
      (let base = drop 11 path
       in 4 \<le> length base \<and> drop (length base - 4) base = ''.jpg'' \<and>
          CHR ''/'' \<notin> set base \<and> take 1 base \<noteq> ''.''))"

definition glob_inputs :: "file_system \<Rightarrow> file_content list" where
  "glob_inputs fs = map snd (sort_key fst (filter (\<lambda>(p, c). matches_glob p) fs))"



section \<open>\<open>play_video\<close>, \<open>handle_video_creation\<close> and \<open>main\<close> (app.py, lines 28--33, 147--158, 266--275)\<close>






section \<open>The inference entry point: \<open>predict_fn\<close> (inference.py, lines 28--98)\<close>

text \<open>
  The keyword arguments of the call of the generation pipeline.
\<close>

record pipe_args =
  arg_image :: image
  arg_width :: int
  arg_height :: int
  arg_num_frames :: pyval
  arg_num_inference_steps :: pyval
  arg_min_guidance_scale :: pyval
  arg_max_guidance_scale :: pyval
  arg_fps :: pyval
  arg_motion_bucket_id :: pyval
  arg_noise_aug_strength :: pyval
  arg_decode_chunk_size :: pyval
  arg_generator :: int

text \<open>
  The libraries \<open>predict_fn\<close> calls, as parameters: decoding a base64 string into a PIL
  image, \<open>diffusers.utils.load_image\<close>, \<open>Image.thumbnail\<close> (the image and the two
  components of the size it is given), \<open>torch.manual_seed\<close>, the pipeline (its first
  video), saving a frame as JPEG and \<open>base64.b64encode\<close>.
\<close>

record inference_env =
  open_base64 :: "string \<Rightarrow> exn + image"
  load_image :: "string \<Rightarrow> exn + image"
  thumbnail :: "image \<Rightarrow> pyval \<Rightarrow> pyval \<Rightarrow> exn + image"
  manual_seed :: "pyval \<Rightarrow> exn + int"
  pipe :: "pipe_args \<Rightarrow> exn + image list"
  frame_jpeg :: "image \<Rightarrow> bytes"
  encode_b64 :: "bytes \<Rightarrow> string"




section \<open>Example executions\<close>

text \<open>
  Answers of the object store used in the examples below: nothing is there yet; the result
  and a failure record are both there; and three executions that start with \<open>n\<close> passes
  in which nothing is there.
\<close>

definition pending_answers :: s3_answers where
  "pending_answers =
     \<lparr>head_object = Inl (ClientError ''404''),
      download_file = Inl (ClientError ''404''),
      download_fileobj = Inl (ClientError ''NoSuchKey'')\<rparr>"

definition never_ready :: "nat \<Rightarrow> s3_answers" where
  "never_ready n = pending_answers"

definition both_present :: "response_payload \<Rightarrow> s3_answers" where
  "both_present doc =
     \<lparr>head_object = Inr (), download_file = Inr doc, download_fileobj = Inr [102, 97, 105, 108]\<rparr>"

definition ready_from :: "nat \<Rightarrow> response_payload \<Rightarrow> nat \<Rightarrow> s3_answers" where
  "ready_from n doc k = (if k < n then pending_answers else both_present doc)"

definition denied_from :: "nat \<Rightarrow> nat \<Rightarrow> s3_answers" where
  "denied_from n k =
     (if k < n then pending_answers
      else \<lparr>head_object = Inl (ClientError ''403''),
            download_file = Inl (ClientError ''403''),
            download_fileobj = Inr [102, 97, 105, 108]\<rparr>)"

definition failed_from :: "nat \<Rightarrow> nat \<Rightarrow> s3_answers" where
  "failed_from n k =
     (if k < n then pending_answers
      else \<lparr>head_object = Inl (ClientError ''404''),
            download_file = Inl (ClientError ''404''),
            download_fileobj = Inr [102, 97, 105, 108]\<rparr>)"


text \<open>
  Stand-ins for the libraries and services, used only to run the model on examples.
  The decoder rejects a string whose length is not a multiple of four and otherwise
  returns the character codes; an image is its file's bytes; the widgets return the value
  they are given (the user changes nothing); the store accepts every upload; the job's
  result appears at the third pass.
\<close>

definition stub_decode :: "string \<Rightarrow> exn + bytes" where
  "stub_decode s =
     (if length s mod 4 = 0 then Inr (map of_char s)
      else Inl (OtherException ''binascii.Error''))"

definition stub_document :: response_payload where
  "stub_document =
     \<lparr>frames = [''AAAA'', ''BBBB''],
      config =
        [''movie_title'' \<mapsto> PStr ''demo'',
         ''width'' \<mapsto> PInt 64,
         ''height'' \<mapsto> PInt 64,
         ''num_frames'' \<mapsto> PInt 25,
         ''num_inference_steps'' \<mapsto> PInt 25,
         ''min_guidance_scale'' \<mapsto> PFloat 1,
         ''max_guidance_scale'' \<mapsto> PFloat 3,
         ''fps'' \<mapsto> PInt 6,
         ''motion_bucket_id'' \<mapsto> PInt 127,
         ''noise_aug_strength'' \<mapsto> PFloat (2 / 100),
         ''decode_chunk_size'' \<mapsto> PInt 8,
         ''seed'' \<mapsto> PInt 42]\<rparr>"

definition stub_env :: client_env where
  "stub_env =
     \<lparr>image_open =
        (\<lambda>f. if file_data f = [] then Inl (OtherException ''UnidentifiedImageError'')
             else Inr \<lparr>img_width = 64, img_height = 64, img_pixels = file_data f\<rparr>),
      image_save_jpeg = (\<lambda>img. Inr (img_pixels img)),
      b64encode = map char_of,
      b64decode = stub_decode,
      splitext_root = takeWhile (\<lambda>c. c \<noteq> CHR ''.''),
      repr = (\<lambda>v. ''None''),
      text_input = (\<lambda>label v. v),
      number_input = (\<lambda>label v. v),
      s3_upload_error = (\<lambda>bucket key. None),
      invoke_endpoint_async =
        (\<lambda>endpoint location timeout.
           Inr \<lparr>OutputLocation = ''s3://bucket/out'', FailureLocation = ''s3://bucket/failure''\<rparr>),
      s3_poll = (\<lambda>response. ready_from 2 stub_document),
      ffmpeg_run = (\<lambda>job. Inr [0])\<rparr>"

definition demo_file :: uploaded_file where
  "demo_file = \<lparr>file_name = ''demo.png'', file_size = 3, file_data = [65, 66, 67]\<rparr>"


text \<open>
  A new session in a working directory in which \<open>frames_out\<close> and \<open>video_out\<close> have been
  created by hand.
\<close>

definition fresh_app :: app where
  "fresh_app =
     \<lparr>session_state = Map.empty, shown = [], calls = [], s3_objects = Map.empty,
      local_files = [],
      directories = [''tmp'', ''tmp/request_payloads'', ''frames_out'', ''video_out''],
      slept = 0\<rparr>"

text \<open>A session in which \<open>demo.png\<close> has been uploaded and nothing else was changed.\<close>

definition demo_app :: app where
  "demo_app =
     fresh_app\<lparr>session_state :=
       (reset_session_states Map.empty)
         (''uploaded_image'' \<mapsto> PFile demo_file, ''movie_title'' \<mapsto> PStr ''demo'',
          ''width'' \<mapsto> PInt 64, ''height'' \<mapsto> PInt 64)\<rparr>"

text \<open>A second run in the same session, with another title and frame rate.\<close>

definition demo_second_app :: app where
  "demo_second_app =
     (snd (invoke_model stub_env demo_app))
       \<lparr>session_state :=
          (session_state demo_app)(''movie_title'' \<mapsto> PStr ''other'', ''fps'' \<mapsto> PInt 12)\<rparr>"

text \<open>
  A stand-in for the libraries of the inference side.  The size that \<open>Image.thumbnail\<close>
  gives an image follows the rule of the Pillow library, in exact arithmetic: an image
  that fits into the given size is left as it is; otherwise one side takes the given
  size and the other is the scaled side, rounded down or up to whichever keeps the aspect
  ratio better, and at least 1.  The pipeline returns two frames.
\<close>

definition round_aspect :: "rat \<Rightarrow> (int \<Rightarrow> rat) \<Rightarrow> int" where
  "round_aspect number key =
     max (if key \<lfloor>number\<rfloor> \<le> key \<lceil>number\<rceil> then \<lfloor>number\<rfloor> else \<lceil>number\<rceil>) 1"

definition thumbnail_size :: "int \<times> int \<Rightarrow> int \<times> int \<Rightarrow> int \<times> int" where
  "thumbnail_size dims box =
     (case (dims, box) of
        ((iw, ih), (x, y)) \<Rightarrow>
          if x \<ge> iw \<and> y \<ge> ih then (iw, ih)
          else
            (let aspect = of_int iw / of_int ih
             in if of_int x / of_int y \<ge> aspect
                then (round_aspect (of_int y * aspect) (\<lambda>n. \<bar>aspect - of_int n / of_int y\<bar>), y)
                else (x, round_aspect (of_int x / aspect)
                           (\<lambda>n. if n = 0 then 0 else \<bar>aspect - of_int x / of_int n\<bar>))))"

definition stub_thumbnail :: "image \<Rightarrow> pyval \<Rightarrow> pyval \<Rightarrow> exn + image" where
  "stub_thumbnail img width height =
     (case (width, height) of
        (PInt x, PInt y) \<Rightarrow>
          (case thumbnail_size (img_width img, img_height img) (x, y) of
             (w, h) \<Rightarrow> Inr (img\<lparr>img_width := w, img_height := h\<rparr>))
      | _ \<Rightarrow> Inl TypeError)"

definition stub_inference :: inference_env where
  "stub_inference =
     \<lparr>open_base64 =
        (\<lambda>s. Inr \<lparr>img_width = 2048, img_height = 2048, img_pixels = map of_char s\<rparr>),
      load_image = (\<lambda>url. Inl (OtherException ''ConnectionError'')),
      thumbnail = stub_thumbnail,
      manual_seed = (\<lambda>v. case v of PInt n \<Rightarrow> Inr n | _ \<Rightarrow> Inl TypeError),
      pipe =
        (\<lambda>args. Inr [(arg_image args)\<lparr>img_pixels := [65, 65, 65]\<rparr>,
                       (arg_image args)\<lparr>img_pixels := [66, 66, 66]\<rparr>]),
      frame_jpeg = img_pixels,
      encode_b64 = (\<lambda>b. map char_of (b @ take 1 b))\<rparr>"

text \<open>A request that names neither width nor height.\<close>

definition bare_request :: dict where
  "bare_request =
     [''movie_title'' \<mapsto> PStr ''demo'', ''image'' \<mapsto> PStr ''data:text/plain;base64,QUJD'']"

text \<open>
  The files that \<open>process_video_frames\<close> writes for decoded frames \<open>bs\<close>, numbered from
  \<open>idx\<close>: a name for what the properties below say about the frame directory.
\<close>

definition frame_files :: "nat \<Rightarrow> bytes list \<Rightarrow> file_system" where
  "frame_files idx bs = map (\<lambda>(i, b). (frame_name i, Binary b)) (zip [idx..<idx + length bs] bs)"

text \<open>
  Result documents on disk: one with a hundred frames that the stand-in decoder accepts
  and decodes to pairwise different byte strings, one with no frame, and one whose second
  entry the decoder rejects.
\<close>

definition hundred_frames :: "string list" where
  "hundred_frames = map (\<lambda>n. replicate (4 * Suc n) (CHR ''A'')) [0..<100]"

definition hundred_app :: app where
  "hundred_app =
     fresh_app\<lparr>local_files :=
       [(RESPONSE_PAYLOAD, JsonResponse \<lparr>frames = hundred_frames, config = Map.empty\<rparr>)]\<rparr>"

definition empty_frames_app :: app where
  "empty_frames_app =
     fresh_app\<lparr>local_files :=
       [(RESPONSE_PAYLOAD, JsonResponse \<lparr>frames = [], config = Map.empty\<rparr>)]\<rparr>"

definition partial_app :: app where
  "partial_app =
     fresh_app\<lparr>local_files :=
       [(RESPONSE_PAYLOAD,
         JsonResponse \<lparr>frames = [''AAAA'', ''BAD'', ''CCCC''], config = Map.empty\<rparr>)]\<rparr>"

text \<open>The same document in a working directory without \<open>frames_out\<close>.\<close>

definition no_dir_app :: app where
  "no_dir_app = partial_app\<lparr>directories := [''tmp'', ''tmp/request_payloads'']\<rparr>"

section \<open>Properties of the poller\<close>

lemma after_check_continue:
  "poll_once ans = Continue \<Longrightarrow> after_check ans s = s\<lparr>checks := Suc (checks s)\<rparr>"
  by (auto simp: poll_once_def after_check_def split: sum.splits if_splits)

lemma poll_loop_done:
  "poll_once (answers (checks s)) = Done r \<Longrightarrow>
   poll_loop answers s = Some (r, after_check (answers (checks s)) s)"
  by (subst poll_loop.simps) simp

lemma poll_loop_continue:
  "poll_once (answers (checks s)) = Continue \<Longrightarrow>
   poll_loop answers s =
     poll_loop answers (s\<lparr>checks := Suc (checks s), poll_slept := poll_slept s + 15\<rparr>)"
  by (subst poll_loop.simps) (simp add: after_check_continue)

lemma poll_loop_skip:
  "(\<And>j. j < k \<Longrightarrow> poll_once (answers (checks s + j)) = Continue) \<Longrightarrow>
   poll_loop answers s =
     poll_loop answers (s\<lparr>checks := checks s + k, poll_slept := poll_slept s + 15 * k\<rparr>)"
proof (induction k arbitrary: s)
  case 0
  then show ?case by simp
next
  case (Suc k)
  have first: "poll_once (answers (checks s)) = Continue"
    using Suc.prems [of 0] by simp
  let ?s = "s\<lparr>checks := Suc (checks s), poll_slept := poll_slept s + 15\<rparr>"
  have rest: "\<And>j. j < k \<Longrightarrow> poll_once (answers (checks ?s + j)) = Continue"
    using Suc.prems [of "Suc _"] by simp
  show ?case
    using poll_loop_continue [of answers s, OF first] Suc.IH [of ?s, OF rest]
    by (simp add: add.commute add.left_commute)
qed

lemma get_model_response_first:
  assumes "\<And>j. j < k \<Longrightarrow> poll_once (answers j) = Continue"
    and "poll_once (answers k) = Done r"
  shows "get_model_response answers fs =
           Some (r, after_check (answers k) \<lparr>checks = k, poll_slept = 15 * k, poll_files = fs\<rparr>)"
proof -
  let ?s = "\<lparr>checks = 0, poll_slept = 0, poll_files = fs\<rparr>"
  have "poll_loop answers ?s =
          poll_loop answers (?s\<lparr>checks := checks ?s + k, poll_slept := poll_slept ?s + 15 * k\<rparr>)"
    by (rule poll_loop_skip) (simp add: assms(1))
  also have "\<dots> = poll_loop answers \<lparr>checks = k, poll_slept = 15 * k, poll_files = fs\<rparr>"
    by simp
  also have "\<dots> = Some (r, after_check (answers k) \<lparr>checks = k, poll_slept = 15 * k, poll_files = fs\<rparr>)"
    using poll_loop_done [of answers "\<lparr>checks = k, poll_slept = 15 * k, poll_files = fs\<rparr>" r] assms(2)
    by simp
  finally show ?thesis by (simp add: get_model_response_def)
qed

lemma poll_loop_Some_last:
  assumes "poll_loop answers s = Some out"
  shows "checks s < checks (snd out) \<and>
         poll_once (answers (checks (snd out) - 1)) = Done (fst out)"
proof (induction answers s out rule: poll_loop.raw_induct)
  case (1 self answers s out)
  show ?case
  proof (cases "poll_once (answers (checks s))")
    case (Done x)
    with "1"(2) have out: "fst out = x" "snd out = after_check (answers (checks s)) s"
      by auto
    have "checks (after_check (answers (checks s)) s) = Suc (checks s)"
      by (simp add: after_check_def split: sum.splits)
    then have c: "checks (snd out) = Suc (checks s)" by (simp only: out)
    show ?thesis unfolding c using Done out(1) by simp
  next
    case Continue
    let ?s = "(after_check (answers (checks s)) s)\<lparr>poll_slept := poll_slept s + 15\<rparr>"
    from Continue "1"(2) have "self answers ?s = Some out" by simp
    then have "checks ?s < checks (snd out) \<and>
               poll_once (answers (checks (snd out) - 1)) = Done (fst out)"
      by (rule "1"(1))
    then show ?thesis by (simp add: after_check_continue [OF Continue])
  qed
qed (fact assms)

lemma poll_loop_Some_resolves:
  "poll_loop answers s = Some out \<Longrightarrow> \<exists>k. poll_once (answers k) \<noteq> Continue"
  using poll_loop_Some_last [of answers s out]
  by (metis pass_result.distinct(1))

lemma exists_first_done:
  fixes answers :: "nat \<Rightarrow> s3_answers"
  assumes "poll_once (answers k) \<noteq> Continue"
  shows "\<exists>m r. (\<forall>j<m. poll_once (answers j) = Continue) \<and> poll_once (answers m) = Done r"
proof -
  from assms have "\<exists>m. poll_once (answers m) \<noteq> Continue" by blast
  then obtain m where m: "poll_once (answers m) \<noteq> Continue"
      "\<forall>j<m. \<not> poll_once (answers j) \<noteq> Continue"
    using exists_least_iff [of "\<lambda>m. poll_once (answers m) \<noteq> Continue"] by blast
  from m(1) obtain r where "poll_once (answers m) = Done r"
    by (cases "poll_once (answers m)") auto
  with m(2) show ?thesis by auto
qed

lemma poll_once_pending: "poll_once pending_answers = Continue"
  by (simp add: poll_once_def success_check_def pending_answers_def)

lemma poll_once_both: "poll_once (both_present doc) = Done (Returned True)"
  by (simp add: poll_once_def success_check_def both_present_def)

lemma poll_once_success:
  "success_check ans = Inr doc \<Longrightarrow> poll_once ans = Done (Returned True)"
  by (simp add: poll_once_def)

lemma poll_once_hard_error:
  "success_check ans = Inl e \<Longrightarrow> \<not> not_found e \<Longrightarrow> poll_once ans = Done (Raised e)"
  by (simp add: poll_once_def)

lemma poll_once_Returned_False:
  "poll_once ans = Done (Returned False) \<Longrightarrow> \<exists>e. success_check ans = Inl e \<and> not_found e"
  by (auto simp: poll_once_def split: sum.splits if_splits)

lemma poll_once_Continue:
  "poll_once ans = Continue \<Longrightarrow> \<exists>e. success_check ans = Inl e \<and> not_found e"
  by (auto simp: poll_once_def split: sum.splits if_splits)

text \<open>
  Claim C1, as stated, fails: when the success object is never found and the failure
  object can never be fetched, \<open>get_model_response\<close> does not return at all, so it returns
  no time-out result and never stops checking.
\<close>

theorem never_ready_cex: "get_model_response never_ready [] = None"
proof (cases "get_model_response never_ready []")
  case None
  then show ?thesis .
next
  case (Some out)
  then have "\<exists>k. poll_once (never_ready k) \<noteq> Continue"
    unfolding get_model_response_def by (rule poll_loop_Some_resolves)
  then show ?thesis by (simp add: never_ready_def poll_once_pending)
qed

text \<open>
  Claim C1, amended: the polling loop has no deadline and no time-out result.  It returns
  exactly in the executions in which some pass resolves (the success object is fetched,
  the failure object is fetched after a not-found error, or the success check raises an
  error that is not a not-found error), and it returns at the first such pass, after one
  sleep of 15 seconds for every earlier pass, however long that takes.
\<close>

theorem poller_no_deadline:
  "((\<exists>out. get_model_response answers fs = Some out) \<longleftrightarrow>
      (\<exists>k. poll_once (answers k) \<noteq> Continue)) \<and>
   ((\<forall>j<k. poll_once (answers j) = Continue) \<and> poll_once (answers k) = Done r \<longrightarrow>
      (\<exists>ps. get_model_response answers fs = Some (r, ps) \<and>
            checks ps = Suc k \<and> poll_slept ps = 15 * k))"
proof (intro conjI iffI impI)
  assume "\<exists>out. get_model_response answers fs = Some out"
  then show "\<exists>k. poll_once (answers k) \<noteq> Continue"
    unfolding get_model_response_def using poll_loop_Some_resolves by blast
next
  assume "\<exists>k. poll_once (answers k) \<noteq> Continue"
  then obtain m r where "\<forall>j<m. poll_once (answers j) = Continue" "poll_once (answers m) = Done r"
    using exists_first_done by blast
  then show "\<exists>out. get_model_response answers fs = Some out"
    using get_model_response_first [of m answers r fs] by simp
next
  assume a: "(\<forall>j<k. poll_once (answers j) = Continue) \<and> poll_once (answers k) = Done r"
  have "checks (after_check (answers k) \<lparr>checks = k, poll_slept = 15 * k, poll_files = fs\<rparr>) = Suc k"
       "poll_slept (after_check (answers k) \<lparr>checks = k, poll_slept = 15 * k, poll_files = fs\<rparr>) = 15 * k"
    by (simp_all add: after_check_def split: sum.splits)
  then show "\<exists>ps. get_model_response answers fs = Some (r, ps) \<and>
            checks ps = Suc k \<and> poll_slept ps = 15 * k"
    using get_model_response_first [of k answers r fs] a by simp
qed

text \<open>
  An execution in which the result appears at pass 241: the loop is still checking after
  3615 seconds of sleep, beyond the 3600 seconds given to the job.
\<close>

theorem poller_no_deadline_witness:
  "\<exists>ps. get_model_response (ready_from 241 \<lparr>frames = [], config = Map.empty\<rparr>) [] =
          Some (Returned True, ps) \<and> checks ps = 242 \<and> poll_slept ps = 3615"
  using poller_no_deadline [of "ready_from 241 \<lparr>frames = [], config = Map.empty\<rparr>" "[]" 241 "Returned True"]
  by (simp add: ready_from_def poll_once_pending poll_once_both)

text \<open>
  Claim C2: in every pass the success location is checked before the failure location.
  A pass whose success check succeeds returns \<open>True\<close> whatever the failure location holds;
  if the success object is first fetchable at pass \<open>k\<close>, all earlier passes having found
  nothing, the poller returns \<open>True\<close> with the result document stored, whether or not a
  failure record is fetchable at pass \<open>k\<close> or later; and whenever the poller returns
  \<open>False\<close>, the success check of its last pass had raised a not-found error.
\<close>

theorem success_checked_first:
  "(success_check ans = Inr doc \<longrightarrow> poll_once ans = Done (Returned True)) \<and>
   ((\<forall>j<k. poll_once (answers j) = Continue) \<and> success_check (answers k) = Inr doc \<longrightarrow>
      (\<exists>ps. get_model_response answers fs = Some (Returned True, ps) \<and>
            read_file (poll_files ps) RESPONSE_PAYLOAD = Some (JsonResponse doc))) \<and>
   (get_model_response answers fs = Some (Returned False, ps) \<longrightarrow>
      (\<exists>e. success_check (answers (checks ps - 1)) = Inl e \<and> not_found e))"
proof (intro conjI impI)
  assume "success_check ans = Inr doc"
  then show "poll_once ans = Done (Returned True)" by (rule poll_once_success)
next
  assume a: "(\<forall>j<k. poll_once (answers j) = Continue) \<and> success_check (answers k) = Inr doc"
  let ?ps = "after_check (answers k) \<lparr>checks = k, poll_slept = 15 * k, poll_files = fs\<rparr>"
  from a have "poll_once (answers k) = Done (Returned True)" by (simp add: poll_once_success)
  with a have "get_model_response answers fs = Some (Returned True, ?ps)"
    using get_model_response_first [of k answers "Returned True" fs] by simp
  moreover from a have "read_file (poll_files ?ps) RESPONSE_PAYLOAD = Some (JsonResponse doc)"
    by (simp add: after_check_def read_file_def write_file_def)
  ultimately show "\<exists>ps. get_model_response answers fs = Some (Returned True, ps) \<and>
            read_file (poll_files ps) RESPONSE_PAYLOAD = Some (JsonResponse doc)"
    by blast
next
  assume "get_model_response answers fs = Some (Returned False, ps)"
  then have "poll_once (answers (checks ps - 1)) = Done (Returned False)"
    unfolding get_model_response_def using poll_loop_Some_last by fastforce
  then show "\<exists>e. success_check (answers (checks ps - 1)) = Inl e \<and> not_found e"
    by (rule poll_once_Returned_False)
qed

text \<open>
  Two executions: the result and a failure record both appear at pass 2 and the poller
  returns \<open>True\<close>; only the failure record appears at pass 1 and the poller returns
  \<open>False\<close>.
\<close>

theorem success_checked_first_witness:
  "(\<exists>ps. get_model_response (ready_from 2 \<lparr>frames = [''AAAA''], config = Map.empty\<rparr>) [] =
           Some (Returned True, ps) \<and>
         read_file (poll_files ps) RESPONSE_PAYLOAD =
           Some (JsonResponse \<lparr>frames = [''AAAA''], config = Map.empty\<rparr>)) \<and>
   get_model_response (failed_from 1) [] =
     Some (Returned False, \<lparr>checks = 2, poll_slept = 15, poll_files = []\<rparr>) \<and>
   (\<exists>e. success_check (failed_from 1 1) = Inl e \<and> not_found e)"
proof -
  let ?doc = "\<lparr>frames = [''AAAA''], config = Map.empty\<rparr>"
  have failed: "get_model_response (failed_from 1) [] =
     Some (Returned False, \<lparr>checks = 2, poll_slept = 15, poll_files = []\<rparr>)"
  proof -
    have p0: "\<And>j. j < 1 \<Longrightarrow> poll_once (failed_from 1 j) = Continue"
      by (simp add: failed_from_def poll_once_pending)
    have p1: "poll_once (failed_from 1 1) = Done (Returned False)"
      by (simp add: failed_from_def poll_once_def success_check_def)
    have "after_check (failed_from 1 1) \<lparr>checks = 1, poll_slept = 15 * 1, poll_files = []\<rparr> =
            \<lparr>checks = 2, poll_slept = 15, poll_files = []\<rparr>"
      by (simp add: after_check_def failed_from_def success_check_def)
    then show ?thesis
      using get_model_response_first [of 1 "failed_from 1" "Returned False" "[]", OF p0 p1]
      by simp
  qed
  have ready: "(\<forall>j<2. poll_once (ready_from 2 ?doc j) = Continue) \<and>
      success_check (ready_from 2 ?doc 2) = Inr ?doc"
    by (simp add: ready_from_def poll_once_pending success_check_def both_present_def)
  show ?thesis
    using success_checked_first [of "both_present ?doc" ?doc 2 "ready_from 2 ?doc" "[]"
            "\<lparr>checks = 2, poll_slept = 15, poll_files = []\<rparr>"]
          success_checked_first [of "both_present ?doc" ?doc 2 "failed_from 1" "[]"
            "\<lparr>checks = 2, poll_slept = 15, poll_files = []\<rparr>"]
          failed ready
    by simp
qed

text \<open>
  Claim C5: an exception of the success check that is not a not-found error leaves the
  function at once, in the pass in which it is raised: no sleep follows it and the
  failure location is not asked.  Only a not-found error lets a pass end in
  \<open>sleep\<close> and \<open>continue\<close>.
\<close>

theorem hard_error_propagates:
  "(success_check ans = Inl e \<and> \<not> not_found e \<longrightarrow> poll_once ans = Done (Raised e)) \<and>
   (poll_once ans = Continue \<longrightarrow> (\<exists>e'. success_check ans = Inl e' \<and> not_found e')) \<and>
   ((\<forall>j<k. poll_once (answers j) = Continue) \<and>
    success_check (answers k) = Inl e \<and> \<not> not_found e \<longrightarrow>
      get_model_response answers fs =
        Some (Raised e, \<lparr>checks = Suc k, poll_slept = 15 * k, poll_files = fs\<rparr>))"
proof (intro conjI impI)
  assume "success_check ans = Inl e \<and> \<not> not_found e"
  then show "poll_once ans = Done (Raised e)" by (simp add: poll_once_hard_error)
next
  assume "poll_once ans = Continue"
  then show "\<exists>e'. success_check ans = Inl e' \<and> not_found e'" by (rule poll_once_Continue)
next
  assume a: "(\<forall>j<k. poll_once (answers j) = Continue) \<and>
    success_check (answers k) = Inl e \<and> \<not> not_found e"
  then have "poll_once (answers k) = Done (Raised e)" by (simp add: poll_once_hard_error)
  with a show "get_model_response answers fs =
        Some (Raised e, \<lparr>checks = Suc k, poll_slept = 15 * k, poll_files = fs\<rparr>)"
    using get_model_response_first [of k answers "Raised e" fs]
    by (simp add: after_check_def)
qed

text \<open>An execution in which access is denied at pass 3, after three passes of waiting.\<close>

theorem hard_error_propagates_witness:
  "poll_once (denied_from 3 3) = Done (Raised (ClientError ''403'')) \<and>
   (\<exists>e'. success_check pending_answers = Inl e' \<and> not_found e') \<and>
   get_model_response (denied_from 3) [] =
     Some (Raised (ClientError ''403''), \<lparr>checks = 4, poll_slept = 45, poll_files = []\<rparr>)"
  using hard_error_propagates [of "denied_from 3 3" "ClientError ''403''" 3 "denied_from 3" "[]"]
        hard_error_propagates [of pending_answers "ClientError ''403''" 3 "denied_from 3" "[]"]
  by (simp add: denied_from_def poll_once_pending success_check_def)

section \<open>Properties of the defaults\<close>








section \<open>Properties of request staging\<close>

lemma read_write_file [simp]: "read_file (write_file path c fs) path = Some c"
  by (simp add: read_file_def write_file_def)

lemma upload_file_Inr:
  assumes "upload_file env path a = (Inr u, a')"
  shows "\<exists>bucket c. session_state a ''s3_bucket'' = Some (PStr bucket) \<and>
           read_file (local_files a) path = Some c \<and>
           a' = a\<lparr>calls := calls a @ [S3Upload bucket INPUT_KEY c],
                  s3_objects := (s3_objects a)((bucket, INPUT_KEY) \<mapsto> c)\<rparr>"
  using assms
  by (auto simp: upload_file_def INPUT_KEY_def Let_def
        split: option.splits pyval.splits)

lemma invoke_model_Inr:
  assumes "invoke_model env a = (Inr response, a')"
  shows "\<exists>bucket data endpoint.
           session_state a ''s3_bucket'' = Some (PStr bucket) \<and>
           session_state a ''sagemaker_endpoint_name'' = Some endpoint \<and>
           request_data env (session_state a) = Inr data \<and>
           invoke_endpoint_async env endpoint (''s3://'' @ bucket @ ''/'' @ INPUT_KEY) 3600 = Inr response \<and>
           a' = a\<lparr>local_files := write_file REQUEST_PAYLOAD (JsonRequest (map_of data)) (local_files a),
                  calls := calls a @
                    [S3Upload bucket INPUT_KEY (JsonRequest (map_of data)),
                     InvokeEndpointAsync endpoint (''s3://'' @ bucket @ ''/'' @ INPUT_KEY) 3600],
                  s3_objects := (s3_objects a)((bucket, INPUT_KEY) \<mapsto> JsonRequest (map_of data))\<rparr>"
proof -
  from assms obtain data where data: "request_data env (session_state a) = Inr data"
    by (auto simp: invoke_model_def split: sum.splits)
  from assms data obtain doc where doc: "json_dump data = Inr doc"
    by (auto simp: invoke_model_def split: sum.splits)
  then have doc_eq: "doc = map_of data" by (auto simp: json_dump_def split: if_splits)
  let ?a0 = "a\<lparr>local_files := write_file REQUEST_PAYLOAD (JsonRequest doc) (local_files a)\<rparr>"
  from assms data doc obtain a1 u where up: "upload_file env REQUEST_PAYLOAD ?a0 = (Inr u, a1)"
    by (auto simp: invoke_model_def split: sum.splits prod.splits)
  from upload_file_Inr [OF up] obtain bucket where
    bucket: "session_state a ''s3_bucket'' = Some (PStr bucket)" and
    a1: "a1 = ?a0\<lparr>calls := calls a @ [S3Upload bucket INPUT_KEY (JsonRequest doc)],
                  s3_objects := (s3_objects a)((bucket, INPUT_KEY) \<mapsto> JsonRequest doc)\<rparr>"
    by auto
  from assms data doc up a1 bucket show ?thesis
    by (auto simp: invoke_model_def getitem_def py_str_def INPUT_KEY_def Let_def doc_eq
          split: sum.splits option.splits)
qed


lemma upload_file_calls:
  assumes "upload_file env path a = (r, a')"
  shows "calls a' = calls a \<and> s3_objects a' = s3_objects a \<or>
         (\<exists>bucket c. session_state a ''s3_bucket'' = Some (PStr bucket) \<and>
            calls a' = calls a @ [S3Upload bucket INPUT_KEY c] \<and>
            (s3_objects a' = s3_objects a \<or>
             s3_objects a' = (s3_objects a)((bucket, INPUT_KEY) \<mapsto> c)))"
  using assms
  by (auto simp: upload_file_def INPUT_KEY_def Let_def
        split: option.splits pyval.splits)

lemma upload_file_session:
  "upload_file env path a = (r, a') \<Longrightarrow> session_state a' = session_state a"
  by (auto simp: upload_file_def Let_def split: option.splits pyval.splits)

lemma invoke_model_calls:
  assumes "invoke_model env a = (r, a')"
  shows "calls a' = calls a \<or>
         (\<exists>bucket c. session_state a ''s3_bucket'' = Some (PStr bucket) \<and>
            (calls a' = calls a @ [S3Upload bucket INPUT_KEY c] \<or>
             (\<exists>endpoint. calls a' = calls a @
                [S3Upload bucket INPUT_KEY c,
                 InvokeEndpointAsync endpoint (''s3://'' @ bucket @ ''/'' @ INPUT_KEY) 3600])))"
proof (cases "request_data env (session_state a)")
  case (Inl e)
  with assms show ?thesis by (auto simp: invoke_model_def)
next
  case (Inr data)
  show ?thesis
  proof (cases "json_dump data")
    case (Inl e)
    with assms Inr show ?thesis by (auto simp: invoke_model_def)
  next
    case doc: (Inr doc)
    let ?a0 = "a\<lparr>local_files := write_file REQUEST_PAYLOAD (JsonRequest doc) (local_files a)\<rparr>"
    obtain r1 a1 where up: "upload_file env REQUEST_PAYLOAD ?a0 = (r1, a1)"
      by (cases "upload_file env REQUEST_PAYLOAD ?a0")
    note c1 = upload_file_calls [OF up] and s1 = upload_file_session [OF up]
    show ?thesis
    proof (cases r1)
      case (Inl e)
      with assms Inr doc up have "a' = a1" by (simp add: invoke_model_def)
      with c1 show ?thesis by auto
    next
      case r1: (Inr u)
      from upload_file_Inr [OF up [unfolded r1]] obtain bucket c where
        b: "session_state a ''s3_bucket'' = Some (PStr bucket)"
        and a1: "calls a1 = calls a @ [S3Upload bucket INPUT_KEY c]"
        by auto
      from assms Inr doc up r1 b s1 a1 show ?thesis
        by (auto simp: invoke_model_def getitem_def py_str_def INPUT_KEY_def Let_def
              split: sum.splits option.splits)
    qed
  qed
qed


lemma demo_session_eval:
  "session_state demo_app ''s3_bucket'' = Some (PStr S3_BUCKET)"
  "session_state demo_app ''fps'' = Some (PInt 6)"
  by (simp_all add: demo_app_def fresh_app_def reset_session_states_def session_state_defaults_def)

lemma demo_request_data:
  "request_data stub_env (session_state demo_app) =
     Inr [(''movie_title'', PStr ''demo''), (''image'', PStr (''data:text/plain;base64,'' @ map char_of [65, 66, 67 :: nat])),
          (''width'', PInt 64), (''height'', PInt 64), (''num_frames'', PInt 25),
          (''num_inference_steps'', PInt 25), (''min_guidance_scale'', PFloat 1),
          (''max_guidance_scale'', PFloat 3), (''fps'', PInt 6), (''motion_bucket_id'', PInt 127),
          (''noise_aug_strength'', PFloat (2 / 100)), (''decode_chunk_size'', PInt 8),
          (''seed'', PInt 42)]"
  by (simp add: request_data_def demo_app_def fresh_app_def reset_session_states_def
        session_state_defaults_def getitem_def open_upload_def stub_env_def demo_file_def
        encode_image_def payload_keys_def)


lemma invoke_model_ok:
  assumes "request_data env (session_state a) = Inr data"
    and "list_all (\<lambda>(k, v). serialisable v) data"
    and "session_state a ''s3_bucket'' = Some (PStr bucket)"
    and "s3_upload_error env bucket INPUT_KEY = None"
    and "session_state a ''aws_region'' = Some region"
    and "session_state a ''sagemaker_endpoint_name'' = Some endpoint"
  shows "invoke_model env a =
           (invoke_endpoint_async env endpoint (''s3://'' @ bucket @ ''/'' @ INPUT_KEY) 3600,
            a\<lparr>local_files := write_file REQUEST_PAYLOAD (JsonRequest (map_of data)) (local_files a),
              calls := calls a @
                [S3Upload bucket INPUT_KEY (JsonRequest (map_of data)),
                 InvokeEndpointAsync endpoint (''s3://'' @ bucket @ ''/'' @ INPUT_KEY) 3600],
              s3_objects := (s3_objects a)((bucket, INPUT_KEY) \<mapsto> JsonRequest (map_of data))\<rparr>)"
  using assms
  by (simp add: invoke_model_def json_dump_def upload_file_def getitem_def py_str_def
        INPUT_KEY_def Let_def)

text \<open>
  Claim C9: whatever the session holds (title, image, parameters), every upload that
  \<open>invoke_model\<close> makes goes to the bucket of the session under the one key
  \<open>async_inference/input/payload.json\<close>, and the asynchronous invocation, if it is
  reached, names exactly that bucket and key.  Two runs against the same bucket therefore
  stage their requests at the same location, and after the second run the location holds
  the second request only.
\<close>

theorem staged_at_constant_key:
  "(invoke_model env a = (r, a') \<longrightarrow>
      calls a' = calls a \<or>
      (\<exists>bucket c. session_state a ''s3_bucket'' = Some (PStr bucket) \<and>
         (calls a' = calls a @ [S3Upload bucket INPUT_KEY c] \<or>
          (\<exists>endpoint. calls a' = calls a @
             [S3Upload bucket INPUT_KEY c,
              InvokeEndpointAsync endpoint (''s3://'' @ bucket @ ''/'' @ INPUT_KEY) 3600])))) \<and>
   (invoke_model env a = (Inr response, a') \<and>
    invoke_model env2 b = (Inr response2, b') \<and>
    session_state b ''s3_bucket'' = session_state a ''s3_bucket'' \<and>
    s3_objects b = s3_objects a' \<longrightarrow>
      (\<exists>bucket data data2.
         session_state a ''s3_bucket'' = Some (PStr bucket) \<and>
         request_data env (session_state a) = Inr data \<and>
         request_data env2 (session_state b) = Inr data2 \<and>
         s3_objects a' = (s3_objects a)((bucket, INPUT_KEY) \<mapsto> JsonRequest (map_of data)) \<and>
         s3_objects b' = (s3_objects a)((bucket, INPUT_KEY) \<mapsto> JsonRequest (map_of data2))))"
proof (intro conjI impI)
  assume "invoke_model env a = (r, a')"
  then show "calls a' = calls a \<or>
      (\<exists>bucket c. session_state a ''s3_bucket'' = Some (PStr bucket) \<and>
         (calls a' = calls a @ [S3Upload bucket INPUT_KEY c] \<or>
          (\<exists>endpoint. calls a' = calls a @
             [S3Upload bucket INPUT_KEY c,
              InvokeEndpointAsync endpoint (''s3://'' @ bucket @ ''/'' @ INPUT_KEY) 3600])))"
    by (rule invoke_model_calls)
next
  assume h: "invoke_model env a = (Inr response, a') \<and>
    invoke_model env2 b = (Inr response2, b') \<and>
    session_state b ''s3_bucket'' = session_state a ''s3_bucket'' \<and>
    s3_objects b = s3_objects a'"
  from h invoke_model_Inr [of env a response a'] obtain bucket data where
    1: "session_state a ''s3_bucket'' = Some (PStr bucket)"
       "request_data env (session_state a) = Inr data"
       "s3_objects a' = (s3_objects a)((bucket, INPUT_KEY) \<mapsto> JsonRequest (map_of data))"
    by auto
  from h invoke_model_Inr [of env2 b response2 b'] obtain bucket2 data2 where
    2: "session_state b ''s3_bucket'' = Some (PStr bucket2)"
       "request_data env2 (session_state b) = Inr data2"
       "s3_objects b' = (s3_objects b)((bucket2, INPUT_KEY) \<mapsto> JsonRequest (map_of data2))"
    by auto
  from h 1 2 have "bucket2 = bucket" by simp
  with h 1 2 show "\<exists>bucket data data2.
         session_state a ''s3_bucket'' = Some (PStr bucket) \<and>
         request_data env (session_state a) = Inr data \<and>
         request_data env2 (session_state b) = Inr data2 \<and>
         s3_objects a' = (s3_objects a)((bucket, INPUT_KEY) \<mapsto> JsonRequest (map_of data)) \<and>
         s3_objects b' = (s3_objects a)((bucket, INPUT_KEY) \<mapsto> JsonRequest (map_of data2))"
    by auto
qed

lemma demo_session_more:
  "session_state demo_app ''aws_region'' = Some (PStr ''us-east-1'')"
  "session_state demo_app ''sagemaker_endpoint_name'' = Some (PStr ENDPOINT_NAME)"
  by (simp_all add: demo_app_def fresh_app_def reset_session_states_def session_state_defaults_def)

lemma demo_invoke:
  "fst (invoke_model stub_env demo_app) =
     Inr \<lparr>OutputLocation = ''s3://bucket/out'', FailureLocation = ''s3://bucket/failure''\<rparr>"
  using invoke_model_ok [OF demo_request_data _ demo_session_eval(1) _ demo_session_more]
  by (simp add: stub_env_def)

lemma demo_second_request_data:
  "request_data stub_env (session_state demo_second_app) =
     Inr [(''movie_title'', PStr ''other''),
          (''image'', PStr (''data:text/plain;base64,'' @ map char_of [65, 66, 67 :: nat])),
          (''width'', PInt 64), (''height'', PInt 64), (''num_frames'', PInt 25),
          (''num_inference_steps'', PInt 25), (''min_guidance_scale'', PFloat 1),
          (''max_guidance_scale'', PFloat 3), (''fps'', PInt 12), (''motion_bucket_id'', PInt 127),
          (''noise_aug_strength'', PFloat (2 / 100)), (''decode_chunk_size'', PInt 8),
          (''seed'', PInt 42)]"
  by (simp add: request_data_def demo_second_app_def demo_app_def fresh_app_def
        reset_session_states_def
        session_state_defaults_def getitem_def open_upload_def stub_env_def demo_file_def
        encode_image_def payload_keys_def)

lemma demo_second_session:
  "session_state demo_second_app ''s3_bucket'' = Some (PStr S3_BUCKET)"
  "session_state demo_second_app ''aws_region'' = Some (PStr ''us-east-1'')"
  "session_state demo_second_app ''sagemaker_endpoint_name'' = Some (PStr ENDPOINT_NAME)"
  by (simp_all add: demo_second_app_def demo_app_def fresh_app_def reset_session_states_def
        session_state_defaults_def)

lemma demo_second_invoke:
  "fst (invoke_model stub_env demo_second_app) =
     Inr \<lparr>OutputLocation = ''s3://bucket/out'', FailureLocation = ''s3://bucket/failure''\<rparr>"
  using invoke_model_ok [OF demo_second_request_data _ demo_second_session(1) _
          demo_second_session(2,3)]
  by (simp add: stub_env_def)

text \<open>Two runs of the example session, the second with another title and frame rate.\<close>

theorem staged_at_constant_key_witness:
  "\<exists>bucket data data2.
     session_state demo_app ''s3_bucket'' = Some (PStr bucket) \<and>
     request_data stub_env (session_state demo_app) = Inr data \<and>
     request_data stub_env (session_state demo_second_app) = Inr data2 \<and>
     s3_objects (snd (invoke_model stub_env demo_app)) =
       (s3_objects demo_app)((bucket, INPUT_KEY) \<mapsto> JsonRequest (map_of data)) \<and>
     s3_objects (snd (invoke_model stub_env demo_second_app)) =
       (s3_objects demo_app)((bucket, INPUT_KEY) \<mapsto> JsonRequest (map_of data2))"
proof -
  let ?r = "\<lparr>OutputLocation = ''s3://bucket/out'', FailureLocation = ''s3://bucket/failure''\<rparr>"
  have 1: "invoke_model stub_env demo_app = (Inr ?r, snd (invoke_model stub_env demo_app))"
    using demo_invoke by (metis prod.collapse)
  have 2: "invoke_model stub_env demo_second_app =
             (Inr ?r, snd (invoke_model stub_env demo_second_app))"
    using demo_second_invoke by (metis prod.collapse)
  have 3: "session_state demo_second_app ''s3_bucket'' = session_state demo_app ''s3_bucket''"
    by (simp add: demo_second_session demo_session_eval)
  have 4: "s3_objects demo_second_app = s3_objects (snd (invoke_model stub_env demo_app))"
    by (simp add: demo_second_app_def)
  show ?thesis
    using staged_at_constant_key [of stub_env demo_app "Inr ?r"
            "snd (invoke_model stub_env demo_app)" ?r stub_env demo_second_app ?r
            "snd (invoke_model stub_env demo_second_app)"] 1 2 3 4
    by blast
qed

section \<open>Properties of the upload check\<close>





lemma getitems_map_of:
  "getitems d keys = Inr kvs \<Longrightarrow> k \<in> set keys \<Longrightarrow> map_of kvs k = d k"
proof (induction keys arbitrary: kvs)
  case Nil
  then show ?case by simp
next
  case (Cons key keys)
  then show ?case
    by (auto simp: getitem_def split: option.splits sum.splits)
qed


lemma request_data_fps:
  assumes "request_data env st = Inr data"
  shows "map_of data ''fps'' = st ''fps'' \<and> st ''fps'' \<noteq> None"
proof -
  from assms obtain kvs t enc where kvs: "getitems st payload_keys = Inr kvs"
    and data: "data = (''movie_title'', t) # (''image'', PStr enc) # kvs"
    by (auto simp: request_data_def split: sum.splits)
  have "''fps'' \<in> set payload_keys" by (simp add: payload_keys_def)
  from getitems_map_of [OF kvs this] have 1: "map_of kvs ''fps'' = st ''fps''" .
  have "st ''fps'' \<noteq> None"
    using kvs by (auto simp: payload_keys_def getitem_def split: option.splits sum.splits)
  with 1 data show ?thesis by simp
qed






section \<open>Properties of the frame files\<close>

declare decimal.simps [simp del]

lemma of_char_digit: "d < 10 \<Longrightarrow> of_char (digit_char d) = (48 + d :: nat)"
  by (simp add: digit_char_def)

lemma digit_char_inj: "a < 10 \<Longrightarrow> b < 10 \<Longrightarrow> digit_char a = digit_char b \<Longrightarrow> a = b"
proof -
  assume a: "a < 10" and b: "b < 10" and e: "digit_char a = digit_char b"
  have "(48 + a :: nat) = of_char (digit_char a)" using a by (simp only: of_char_digit)
  also have "\<dots> = of_char (digit_char b)" by (simp only: e)
  also have "\<dots> = 48 + b" using b by (simp only: of_char_digit)
  finally show "a = b" by simp
qed

lemma decimal_small: "n < 10 \<Longrightarrow> decimal n = [digit_char n]"
  by (subst decimal.simps) simp

lemma decimal_large: "\<not> n < 10 \<Longrightarrow> decimal n = decimal (n div 10) @ [digit_char (n mod 10)]"
  by (subst decimal.simps) simp

lemma decimal_nonempty: "decimal n \<noteq> []"
proof (cases "n < 10")
  case True
  then have "decimal n = [digit_char n]" by (rule decimal_small)
  then show ?thesis by simp
next
  case False
  then have "decimal n = decimal (n div 10) @ [digit_char (n mod 10)]" by (rule decimal_large)
  then show ?thesis by simp
qed

lemma decimal_length_large: "\<not> n < 10 \<Longrightarrow> 2 \<le> length (decimal n)"
proof -
  assume a: "\<not> n < 10"
  obtain x xs where "decimal (n div 10) = x # xs"
    using decimal_nonempty [of "n div 10"] by (cases "decimal (n div 10)") auto
  then have "decimal n = (x # xs) @ [digit_char (n mod 10)]"
    using decimal_large [OF a] by simp
  then show ?thesis by simp
qed

lemma decimal_chars:
  "c \<in> set (decimal n) \<Longrightarrow> 48 \<le> (of_char c :: nat) \<and> (of_char c :: nat) \<le> 57"
proof (induction n rule: decimal.induct)
  case (1 n)
  show ?case
  proof (cases "n < 10")
    case True
    with "1.prems" show ?thesis by (simp add: decimal_small of_char_digit)
  next
    case False
    with "1.prems" have "c \<in> set (decimal (n div 10)) \<or> c = digit_char (n mod 10)"
      by (auto simp: decimal_large)
    then show ?thesis
      using "1.IH" [OF False] of_char_digit [of "n mod 10"] by auto
  qed
qed

lemma decimal_hd: "0 < n \<Longrightarrow> hd (decimal n) \<noteq> digit_char 0"
proof (induction n rule: decimal.induct)
  case (1 n)
  show ?case
  proof (cases "n < 10")
    case True
    with "1.prems" show ?thesis
      using digit_char_inj [of n 0] by (auto simp: decimal_small)
  next
    case False
    then have "0 < n div 10" by simp
    from "1.IH" [OF False this] show ?thesis
      using False decimal_nonempty [of "n div 10"]
      by (simp add: decimal_large)
  qed
qed

lemma decimal_inj: "decimal n = decimal m \<Longrightarrow> n = m"
proof (induction n arbitrary: m rule: decimal.induct)
  case (1 n)
  show ?case
  proof (cases "n < 10")
    case True
    show ?thesis
    proof (cases "m < 10")
      case m: True
      with True "1.prems" show ?thesis using digit_char_inj [of n m] by (simp add: decimal_small)
    next
      case m: False
      from True have "length (decimal n) = 1" by (simp add: decimal_small)
      with "1.prems" have "length (decimal m) = 1" by simp
      with decimal_length_large [OF m] show ?thesis by simp
    qed
  next
    case False
    show ?thesis
    proof (cases "m < 10")
      case m: True
      from "1.prems" m have "length (decimal n) = 1" by (simp add: decimal_small)
      with decimal_length_large [OF False] show ?thesis by simp
    next
      case m: False
      from "1.prems" False m
      have "decimal (n div 10) = decimal (m div 10)" "digit_char (n mod 10) = digit_char (m mod 10)"
        by (simp_all add: decimal_large)
      then have "n div 10 = m div 10" "n mod 10 = m mod 10"
        using "1.IH" [OF False] digit_char_inj [of "n mod 10" "m mod 10"] by auto
      then show ?thesis by (metis div_mult_mod_eq)
    qed
  qed
qed

lemma digit_char_0: "digit_char 0 = CHR ''0''"
proof -
  have "(of_char (digit_char 0) :: nat) = of_char (CHR ''0'')"
    by (simp add: digit_char_def)
  then show ?thesis by (simp only: of_char_eq_iff)
qed

lemma format_02_small: "n < 10 \<Longrightarrow> format_02 n = [digit_char 0, digit_char n]"
  by (simp add: format_02_def decimal_small digit_char_0)

lemma format_02_large: "\<not> n < 10 \<Longrightarrow> format_02 n = decimal n"
  using decimal_length_large [of n] by (simp add: format_02_def)

lemma format_02_inj:
  assumes "format_02 n = format_02 m" "0 < n" "0 < m"
  shows "n = m"
proof (cases "n < 10")
  case True
  show ?thesis
  proof (cases "m < 10")
    case m: True
    with True assms show ?thesis using digit_char_inj [of n m] by (simp add: format_02_small)
  next
    case m: False
    with True assms have "decimal m = [digit_char 0, digit_char n]"
      by (simp add: format_02_small format_02_large)
    then have "hd (decimal m) = digit_char 0" by simp
    with decimal_hd [OF assms(3)] show ?thesis by simp
  qed
next
  case False
  show ?thesis
  proof (cases "m < 10")
    case m: True
    with False assms have "decimal n = [digit_char 0, digit_char m]"
      by (simp add: format_02_small format_02_large)
    then have "hd (decimal n) = digit_char 0" by simp
    with decimal_hd [OF assms(2)] show ?thesis by simp
  next
    case m: False
    with False assms show ?thesis
      by (simp add: format_02_large decimal_inj)
  qed
qed

lemma frame_name_inj: "frame_name i = frame_name j \<Longrightarrow> i = j"
  using format_02_inj [of "i + 1" "j + 1"] by (simp add: frame_name_def)

lemma format_02_chars:
  "c \<in> set (format_02 n) \<Longrightarrow> 48 \<le> (of_char c :: nat) \<and> (of_char c :: nat) \<le> 57"
  using decimal_chars [of c n] by (auto simp: format_02_def)

lemma format_02_length: "2 \<le> length (format_02 n)"
  by (simp add: format_02_def)

lemma matches_glob_frame_name: "matches_glob (frame_name i)"
proof -
  let ?base = "''frame_'' @ format_02 (i + 1) @ ''.jpg''"
  have 1: "frame_name i = ''frames_out/'' @ ?base" by (simp add: frame_name_def)
  have 2: "drop (length ?base - 4) ?base = ''.jpg''" by simp
  have 3: "CHR ''/'' \<notin> set ?base"
    using format_02_chars [of "CHR ''/''" "i + 1"] by auto
  show ?thesis
    unfolding matches_glob_def 1 using 2 3 by (simp add: Let_def)
qed

lemma RESPONSE_PAYLOAD_no_frame: "\<not> matches_glob RESPONSE_PAYLOAD"
  by (simp add: matches_glob_def RESPONSE_PAYLOAD_def)

lemma digit_char_less: "a < b \<Longrightarrow> b < 10 \<Longrightarrow> digit_char a < digit_char b"
  by (simp add: less_char_def of_char_digit)

lemma format_02_100: "format_02 100 = [digit_char 1, digit_char 0, digit_char 0]"
  by (simp add: format_02_def decimal_large decimal_small)

lemma format_02_11: "format_02 11 = [digit_char 1, digit_char 1]"
  by (simp add: format_02_def decimal_large decimal_small)

lemma late_frame_sorts_early: "frame_name 99 < frame_name 10"
  using digit_char_less [of 0 1]
  by (simp add: frame_name_def format_02_100 format_02_11)

lemma frame_files_Cons:
  "frame_files idx (b # bs) = (frame_name idx, Binary b) # frame_files (Suc idx) bs"
proof -
  have "[idx..<idx + length (b # bs)] = idx # [Suc idx..<idx + length (b # bs)]"
    by (rule upt_conv_Cons) simp
  then have "[idx..<idx + length (b # bs)] = idx # [Suc idx..<Suc idx + length bs]"
    by simp
  then show ?thesis unfolding frame_files_def by simp
qed

lemma write_frames_all:
  assumes "''frames_out'' \<in> set dirs" and "map (b64decode env) xs = map Inr bs"
  shows "write_frames env dirs idx xs fs =
           (Inr (), rev (frame_files idx bs) @
              filter (\<lambda>(p, c). p \<notin> frame_name ` {idx..<idx + length bs}) fs)"
  using assms
proof (induction xs arbitrary: idx fs bs)
  case Nil
  then show ?case by (simp add: frame_files_def)
next
  case (Cons x xs)
  note dir = Cons.prems(1)
  from Cons.prems(2) obtain b bs' where bs: "bs = b # bs'" and x: "b64decode env x = Inr b"
    and rest: "map (b64decode env) xs = map Inr bs'"
    by (cases bs) auto
  let ?N' = "frame_name ` {Suc idx..<Suc idx + length bs'}"
  have notin: "frame_name idx \<notin> ?N'"
    using frame_name_inj by fastforce
  have N: "frame_name ` {idx..<idx + length bs} = insert (frame_name idx) ?N'"
  proof -
    have "{idx..<idx + length bs} = insert idx {Suc idx..<Suc idx + length bs'}"
      by (auto simp: bs)
    then show ?thesis by simp
  qed
  have flt: "filter (\<lambda>(p, c). p \<notin> ?N') (filter (\<lambda>(p, _). p \<noteq> frame_name idx) fs) =
             filter (\<lambda>(p, c). p \<notin> frame_name ` {idx..<idx + length bs}) fs"
    unfolding N by (induction fs) auto
  have "write_frames env dirs idx (x # xs) fs =
          write_frames env dirs (Suc idx) xs (write_file (frame_name idx) (Binary b) fs)"
    by (simp add: x dir)
  also have "\<dots> = (Inr (), rev (frame_files (Suc idx) bs') @
              filter (\<lambda>(p, c). p \<notin> ?N') (write_file (frame_name idx) (Binary b) fs))"
    by (rule Cons.IH [OF dir rest])
  finally have wf: "write_frames env dirs idx (x # xs) fs =
      (Inr (), rev (frame_files (Suc idx) bs') @
              filter (\<lambda>(p, c). p \<notin> ?N') (write_file (frame_name idx) (Binary b) fs))" .
  have "filter (\<lambda>(p, c). p \<notin> ?N') (write_file (frame_name idx) (Binary b) fs) =
      (frame_name idx, Binary b) #
        filter (\<lambda>(p, c). p \<notin> ?N') (filter (\<lambda>(p, _). p \<noteq> frame_name idx) fs)"
    using notin by (simp add: write_file_def del: filter_filter)
  from wf [unfolded this flt] show ?case by (simp add: bs frame_files_Cons)
qed

lemma frame_files_match: "(p, c) \<in> set (frame_files idx bs) \<Longrightarrow> matches_glob p"
  by (auto simp: frame_files_def matches_glob_frame_name dest!: set_zip_leftD)

lemma glob_after_write_frames:
  assumes "''frames_out'' \<in> set dirs" and "map (b64decode env) xs = map Inr bs"
    and "\<forall>(p, c) \<in> set fs. \<not> matches_glob p"
  shows "glob_inputs (snd (write_frames env dirs idx xs fs)) =
           map snd (sort_key fst (rev (frame_files idx bs)))"
proof -
  have 1: "filter (\<lambda>(p, c). matches_glob p) (rev (frame_files idx bs)) = rev (frame_files idx bs)"
    using frame_files_match by (auto simp: filter_id_conv)
  have 2: "filter (\<lambda>(p, c). matches_glob p)
             (filter (\<lambda>(p, c). p \<notin> frame_name ` {idx..<idx + length bs}) fs) = []"
    using assms(3) by (auto simp: filter_empty_conv)
  show ?thesis
    by (simp add: write_frames_all [OF assms(1,2)] glob_inputs_def 1 2 del: filter_filter)
qed

lemma frame_files_nth:
  "j < length bs \<Longrightarrow> frame_files 0 bs ! j = (frame_name j, Binary (bs ! j))"
  by (simp add: frame_files_def)

lemma length_frame_files: "length (frame_files idx bs) = length bs"
  by (simp add: frame_files_def)

lemma sorting_by_name_scrambles:
  assumes "100 \<le> length bs" and "distinct bs"
  shows "map snd (sort_key fst (rev (frame_files 0 bs))) \<noteq> map Binary bs"
proof
  let ?P = "frame_files 0 bs"
  let ?S = "sort_key fst (rev ?P)"
  assume eq: "map snd ?S = map Binary bs"
  have len: "length ?S = length bs" by (simp add: length_frame_files)
  have at: "?S ! j = (frame_name j, Binary (bs ! j))" if j: "j < length bs" for j
  proof -
    have "set ?S = set ?P" by simp
    moreover from j len have "?S ! j \<in> set ?S" by (simp only: nth_mem)
    ultimately have "?S ! j \<in> set ?P" by (simp only:)
    then obtain i where i: "i < length bs" "?S ! j = ?P ! i"
      by (metis in_set_conv_nth length_frame_files)
    then have Si: "?S ! j = (frame_name i, Binary (bs ! i))" by (simp add: frame_files_nth)
    from eq j len have "snd (?S ! j) = Binary (bs ! j)"
      by (metis length_map nth_map)
    with Si have "bs ! i = bs ! j" by simp
    with assms(2) i(1) j have "i = j" by (simp add: nth_eq_iff_index_eq)
    with Si show ?thesis by simp
  qed
  have "sorted (map fst ?S)" by (rule sorted_sort_key)
  moreover have "10 < length (map fst ?S)" "99 < length (map fst ?S)"
    using assms(1) len by simp_all
  ultimately have "map fst ?S ! 10 \<le> map fst ?S ! 99"
    by (intro sorted_nth_mono) simp_all
  moreover have "map fst ?S ! 10 = frame_name 10" "map fst ?S ! 99 = frame_name 99"
    using assms(1) len at [of 10] at [of 99] by simp_all
  ultimately have "frame_name 10 \<le> frame_name 99" by simp
  with late_frame_sorts_early show False by simp
qed

lemma write_frames_append:
  "write_frames env dirs idx (xs @ ys) fs =
     (case write_frames env dirs idx xs fs of
        (Inl e, fs') \<Rightarrow> (Inl e, fs')
      | (Inr u, fs') \<Rightarrow> write_frames env dirs (idx + length xs) ys fs')"
  by (induction xs arbitrary: idx fs) (auto split: sum.splits prod.splits)

lemma process_video_frames_all:
  assumes "read_file (local_files a) RESPONSE_PAYLOAD = Some (JsonResponse doc)"
    and "''frames_out'' \<in> set (directories a)"
    and "map (b64decode env) (frames doc) = map Inr bs"
  shows "process_video_frames env a =
           (Inr (), a\<lparr>local_files := rev (frame_files 0 bs) @
              filter (\<lambda>(p, c). p \<notin> frame_name ` {0..<0 + length bs}) (local_files a)\<rparr>)"
  using assms by (simp add: process_video_frames_def write_frames_all)

lemma process_video_frames_glob:
  assumes "read_file (local_files a) RESPONSE_PAYLOAD = Some (JsonResponse doc)"
    and "''frames_out'' \<in> set (directories a)"
    and "map (b64decode env) (frames doc) = map Inr bs"
    and "\<forall>(p, c) \<in> set (local_files a). \<not> matches_glob p"
  shows "glob_inputs (local_files (snd (process_video_frames env a))) =
           map snd (sort_key fst (rev (frame_files 0 bs)))"
  using glob_after_write_frames [OF assms(2,3,4), of 0] assms(1)
  by (cases "write_frames env (directories a) 0 (frames doc) (local_files a)")
     (simp add: process_video_frames_def)

lemma process_video_frames_bad:
  assumes "read_file (local_files a) RESPONSE_PAYLOAD = Some (JsonResponse doc)"
    and "''frames_out'' \<in> set (directories a)"
    and "frames doc = oks @ bad # rest"
    and "map (b64decode env) oks = map Inr bs"
    and "b64decode env bad = Inl e"
  shows "process_video_frames env a =
           (Inl e, a\<lparr>local_files :=
              write_file (frame_name (length oks)) (Binary [])
                (rev (frame_files 0 bs) @
                 filter (\<lambda>(p, c). p \<notin> frame_name ` {0..<0 + length bs}) (local_files a))\<rparr>)"
  using assms
  by (simp add: process_video_frames_def write_frames_append write_frames_all)

lemma process_video_frames_no_dir:
  assumes "read_file (local_files a) RESPONSE_PAYLOAD = Some (JsonResponse doc)"
    and "''frames_out'' \<notin> set (directories a)"
    and "frames doc \<noteq> []"
  shows "process_video_frames env a = (Inl (FileNotFoundError (frame_name 0)), a)"
  using assms by (cases "frames doc") (simp_all add: process_video_frames_def)

text \<open>
  Claim C4, as stated, fails: a result document with an empty \<open>frames\<close> list is
  processed without any error, and nothing is written.
\<close>

theorem empty_frames_accepted:
  "process_video_frames stub_env empty_frames_app = (Inr (), empty_frames_app)"
  by (simp add: process_video_frames_def empty_frames_app_def fresh_app_def read_file_def)

text \<open>
  Claim C4, amended: \<open>process_video_frames\<close> validates nothing itself.  On an empty
  \<open>frames\<close> list it returns normally and writes no file, whether or not the directory
  \<open>frames_out\<close> exists.  On a list that is not empty it raises \<open>FileNotFoundError\<close> at
  the first frame, and writes nothing, when \<open>frames_out\<close> does not exist.  When the
  directory exists it returns normally if \<open>base64.b64decode\<close> accepts every entry, and
  raises the decoder's exception at the first entry that \<open>base64.b64decode\<close> rejects; then
  the frames before that entry have already been written and stay on disk, and the file
  of the rejected entry is left empty.
\<close>

theorem decoding_is_unvalidated:
  "read_file (local_files a) RESPONSE_PAYLOAD = Some (JsonResponse doc) \<Longrightarrow>
   (frames doc = [] \<longrightarrow> process_video_frames env a = (Inr (), a)) \<and>
   (frames doc \<noteq> [] \<and> ''frames_out'' \<notin> set (directories a) \<longrightarrow>
      process_video_frames env a = (Inl (FileNotFoundError (frame_name 0)), a)) \<and>
   (''frames_out'' \<in> set (directories a) \<and>
    map (b64decode env) (frames doc) = map Inr bs \<longrightarrow>
      fst (process_video_frames env a) = Inr ()) \<and>
   (''frames_out'' \<in> set (directories a) \<and>
    frames doc = oks @ bad # rest \<and> map (b64decode env) oks = map Inr bs \<and>
    b64decode env bad = Inl e \<longrightarrow>
      process_video_frames env a =
        (Inl e, a\<lparr>local_files :=
           write_file (frame_name (length oks)) (Binary [])
             (rev (frame_files 0 bs) @
              filter (\<lambda>(p, c). p \<notin> frame_name ` {0..<0 + length bs}) (local_files a))\<rparr>))"
proof (intro conjI impI)
  assume "read_file (local_files a) RESPONSE_PAYLOAD = Some (JsonResponse doc)"
    and "frames doc = []"
  then show "process_video_frames env a = (Inr (), a)"
    by (simp add: process_video_frames_def)
next
  assume "read_file (local_files a) RESPONSE_PAYLOAD = Some (JsonResponse doc)"
    and "frames doc \<noteq> [] \<and> ''frames_out'' \<notin> set (directories a)"
  then show "process_video_frames env a = (Inl (FileNotFoundError (frame_name 0)), a)"
    by (simp add: process_video_frames_no_dir)
next
  assume "read_file (local_files a) RESPONSE_PAYLOAD = Some (JsonResponse doc)"
    and "''frames_out'' \<in> set (directories a) \<and>
      map (b64decode env) (frames doc) = map Inr bs"
  then show "fst (process_video_frames env a) = Inr ()"
    by (simp add: process_video_frames_all)
next
  assume "read_file (local_files a) RESPONSE_PAYLOAD = Some (JsonResponse doc)"
    and "''frames_out'' \<in> set (directories a) \<and>
      frames doc = oks @ bad # rest \<and> map (b64decode env) oks = map Inr bs \<and>
      b64decode env bad = Inl e"
  then show "process_video_frames env a =
        (Inl e, a\<lparr>local_files :=
           write_file (frame_name (length oks)) (Binary [])
             (rev (frame_files 0 bs) @
              filter (\<lambda>(p, c). p \<notin> frame_name ` {0..<0 + length bs}) (local_files a))\<rparr>)"
    by (simp add: process_video_frames_bad)
qed

text \<open>
  The document without frames; the document whose second entry is rejected, where the file
  of the first frame is on disk and the file of the second is empty; and the same document
  where \<open>frames_out\<close> is missing.
\<close>

lemma RESPONSE_PAYLOAD_not_frame: "RESPONSE_PAYLOAD \<noteq> frame_name i"
  using matches_glob_frame_name [of i] RESPONSE_PAYLOAD_no_frame by auto

theorem decoding_is_unvalidated_witness:
  "process_video_frames stub_env empty_frames_app = (Inr (), empty_frames_app) \<and>
   fst (process_video_frames stub_env empty_frames_app) = Inr () \<and>
   process_video_frames stub_env partial_app =
     (Inl (OtherException ''binascii.Error''),
      partial_app\<lparr>local_files :=
        (frame_name 1, Binary []) # (frame_name 0, Binary [65, 65, 65, 65]) #
        local_files partial_app\<rparr>) \<and>
   process_video_frames stub_env no_dir_app =
     (Inl (FileNotFoundError (frame_name 0)), no_dir_app)"
proof -
  have r2: "read_file (local_files no_dir_app) RESPONSE_PAYLOAD =
              Some (JsonResponse \<lparr>frames = [''AAAA'', ''BAD'', ''CCCC''], config = Map.empty\<rparr>)"
    by (simp add: no_dir_app_def partial_app_def fresh_app_def read_file_def)
  have h2: "frames \<lparr>frames = [''AAAA'', ''BAD'', ''CCCC''], config = Map.empty\<rparr> \<noteq> [] \<and>
            ''frames_out'' \<notin> set (directories no_dir_app)"
    by (simp add: no_dir_app_def)
  from decoding_is_unvalidated [OF r2, of stub_env "[]" "[]" "''BAD''" "[]"
         "OtherException ''binascii.Error''"] h2
  have nd: "process_video_frames stub_env no_dir_app =
     (Inl (FileNotFoundError (frame_name 0)), no_dir_app)"
    by blast
  have r0: "read_file (local_files empty_frames_app) RESPONSE_PAYLOAD =
              Some (JsonResponse \<lparr>frames = [], config = Map.empty\<rparr>)"
    by (simp add: empty_frames_app_def fresh_app_def read_file_def)
  have r1: "read_file (local_files partial_app) RESPONSE_PAYLOAD =
              Some (JsonResponse \<lparr>frames = [''AAAA'', ''BAD'', ''CCCC''], config = Map.empty\<rparr>)"
    by (simp add: partial_app_def fresh_app_def read_file_def)
  have ne: "frame_name 0 \<noteq> frame_name 1" using frame_name_inj [of 0 1] by auto
  have fs: "write_file (frame_name (length [''AAAA''])) (Binary [])
             (rev (frame_files 0 [[65, 65, 65, 65]]) @
              filter (\<lambda>(p, c). p \<notin> frame_name ` {0..<0 + length [[65, 65, 65, 65 :: nat]]})
                (local_files partial_app)) =
            (frame_name 1, Binary []) # (frame_name 0, Binary [65, 65, 65, 65]) #
              local_files partial_app"
    using ne RESPONSE_PAYLOAD_not_frame [of 0] RESPONSE_PAYLOAD_not_frame [of 1]
    by (simp add: write_file_def frame_files_def partial_app_def fresh_app_def)
  have d: "b64decode stub_env ''AAAA'' = Inr [65, 65, 65, 65]"
      "b64decode stub_env ''BAD'' = Inl (OtherException ''binascii.Error'')"
    by (simp_all add: stub_env_def stub_decode_def)
  have h: "''frames_out'' \<in> set (directories partial_app) \<and>
           frames \<lparr>frames = [''AAAA'', ''BAD'', ''CCCC''], config = Map.empty\<rparr> =
             [''AAAA''] @ ''BAD'' # [''CCCC''] \<and>
           map (b64decode stub_env) [''AAAA''] = map Inr [[65, 65, 65, 65]] \<and>
           b64decode stub_env ''BAD'' = Inl (OtherException ''binascii.Error'')"
    by (simp add: d partial_app_def fresh_app_def)
  from decoding_is_unvalidated [OF r1, of stub_env "[[65, 65, 65, 65]]" "[''AAAA'']" "''BAD''"
            "[''CCCC'']" "OtherException ''binascii.Error''"] h
  have "process_video_frames stub_env partial_app =
        (Inl (OtherException ''binascii.Error''),
         partial_app\<lparr>local_files :=
           write_file (frame_name (length [''AAAA''])) (Binary [])
             (rev (frame_files 0 [[65, 65, 65, 65]]) @
              filter (\<lambda>(p, c). p \<notin> frame_name ` {0..<0 + length [[65, 65, 65, 65 :: nat]]})
                (local_files partial_app))\<rparr>)"
    by blast
  then have p: "process_video_frames stub_env partial_app =
     (Inl (OtherException ''binascii.Error''),
      partial_app\<lparr>local_files :=
        (frame_name 1, Binary []) # (frame_name 0, Binary [65, 65, 65, 65]) #
        local_files partial_app\<rparr>)"
    by (simp only: fs)
  have h0: "frames \<lparr>frames = [], config = Map.empty\<rparr> = [] \<and>
            ''frames_out'' \<in> set (directories empty_frames_app) \<and>
            map (b64decode stub_env) (frames \<lparr>frames = [], config = Map.empty\<rparr>) = map Inr []"
    by (simp add: empty_frames_app_def fresh_app_def)
  from decoding_is_unvalidated [OF r0, of stub_env "[]" "[]" "''BAD''" "[]"
         "OtherException ''binascii.Error''"] h0
  have "process_video_frames stub_env empty_frames_app = (Inr (), empty_frames_app) \<and>
        fst (process_video_frames stub_env empty_frames_app) = Inr ()"
    by blast
  with p nd show ?thesis by blast
qed

lemma hundred_decoded:
  "map (b64decode stub_env) hundred_frames = map Inr (map (map of_char) hundred_frames)"
  by (simp add: hundred_frames_def stub_env_def stub_decode_def)

lemma hundred_distinct: "distinct (map (map of_char) hundred_frames :: bytes list)"
proof -
  have "map length (map (map of_char) hundred_frames :: bytes list) = map (\<lambda>n. 4 * Suc n) [0..<100]"
    by (simp add: hundred_frames_def)
  moreover have "distinct (map (\<lambda>n. 4 * Suc n) [0..<100])"
    by (simp add: distinct_map inj_on_def)
  ultimately have "distinct (map length (map (map of_char) hundred_frames :: bytes list))"
    by (simp only:)
  then show ?thesis using distinct_map by blast
qed

text \<open>
  Claim C3 at a hundred frames, in an existing and empty directory \<open>frames_out\<close>: all
  frames are decoded and written, and the encoder, which reads the files in the order of
  their names, does not get them in the order of the document (\<open>frame_100.jpg\<close> comes
  before \<open>frame_11.jpg\<close>).
\<close>

theorem hundred_frames_misordered:
  "fst (process_video_frames stub_env hundred_app) = Inr () \<and>
   glob_inputs (local_files (snd (process_video_frames stub_env hundred_app))) \<noteq>
     map Binary (map (map of_char) hundred_frames)"
proof -
  have r: "read_file (local_files hundred_app) RESPONSE_PAYLOAD =
             Some (JsonResponse \<lparr>frames = hundred_frames, config = Map.empty\<rparr>)"
    by (simp add: hundred_app_def fresh_app_def read_file_def)
  have d: "map (b64decode stub_env) (frames \<lparr>frames = hundred_frames, config = Map.empty\<rparr>) =
             map Inr (map (map of_char) hundred_frames)"
    using hundred_decoded by simp
  have clean: "\<forall>(p, c) \<in> set (local_files hundred_app). \<not> matches_glob p"
    by (simp add: hundred_app_def fresh_app_def RESPONSE_PAYLOAD_no_frame)
  have len: "100 \<le> length (map (map of_char) hundred_frames :: bytes list)"
    by (simp add: hundred_frames_def)
  have dir: "''frames_out'' \<in> set (directories hundred_app)"
    by (simp add: hundred_app_def fresh_app_def)
  from process_video_frames_all [OF r dir d]
  have "fst (process_video_frames stub_env hundred_app) = Inr ()" by simp
  moreover from process_video_frames_glob [OF r dir d clean]
    sorting_by_name_scrambles [OF len hundred_distinct]
  have "glob_inputs (local_files (snd (process_video_frames stub_env hundred_app))) \<noteq>
     map Binary (map (map of_char) hundred_frames)" by simp
  ultimately show ?thesis by blast
qed

end
